theory Spec2Isabelle
  imports Main "HOL-Library.Word"
begin

unbundle bit_operations_syntax

section \<open>Values and strings of the script\<close>

text \<open>
  A JavaScript string is a sequence of 16-bit code units. Product titles come from a form
  field and may hold any code unit, so they are kept as such. The SKU texts the script
  builds hold characters of \<open>CHARSET\<close> and dashes only and are kept as \<open>string\<close>.
\<close>

type_synonym jsstring = "16 word list"

text \<open>
  The values \<open>generateSKU\<close> can be called with. Only the string case goes past the first
  guard; numbers are kept as integers, which is enough to tell the falsy \<open>0\<close> apart.
\<close>

datatype jsval =
    JUndefined
  | JNull
  | JBoolean bool
  | JNumber int
  | JString jsstring
  | JObject

fun truthy :: "jsval \<Rightarrow> bool" where
  "truthy JUndefined = False"
| "truthy JNull = False"
| "truthy (JBoolean b) = b"
| "truthy (JNumber n) = (n \<noteq> 0)"
| "truthy (JString s) = (s \<noteq> [])"
| "truthy JObject = True"

fun is_string :: "jsval \<Rightarrow> bool" where
  "is_string (JString s) = True"
| "is_string v = False"

section \<open>Platform functions used by generateSKU\<close>

subsection \<open>String.prototype.trim\<close>

text \<open>
  \<open>trim\<close> removes the code units of ECMAScript's WhiteSpace and LineTerminator
  productions from both ends of the string.
\<close>

definition isWhiteSpace :: "16 word \<Rightarrow> bool" where
  "isWhiteSpace c \<longleftrightarrow>
     c = 0x0009 \<or> c = 0x000A \<or> c = 0x000B \<or> c = 0x000C \<or> c = 0x000D \<or> c = 0x0020 \<or>
     c = 0x00A0 \<or> c = 0x1680 \<or> (0x2000 \<le> c \<and> c \<le> 0x200A) \<or> c = 0x2028 \<or> c = 0x2029 \<or>
     c = 0x202F \<or> c = 0x205F \<or> c = 0x3000 \<or> c = 0xFEFF"

definition trim :: "jsstring \<Rightarrow> jsstring" where
  "trim s = rev (dropWhile isWhiteSpace (rev (dropWhile isWhiteSpace s)))"

subsection \<open>TextEncoder.encode\<close>

text \<open>
  \<open>TextEncoder.encode\<close> reads the code units as UTF-16, replaces every unpaired surrogate
  by U+FFFD and writes each code point in UTF-8.
\<close>

definition isHighSurrogate :: "16 word \<Rightarrow> bool" where
  "isHighSurrogate c \<longleftrightarrow> 0xD800 \<le> c \<and> c \<le> 0xDBFF"

definition isLowSurrogate :: "16 word \<Rightarrow> bool" where
  "isLowSurrogate c \<longleftrightarrow> 0xDC00 \<le> c \<and> c \<le> 0xDFFF"

fun codePoints :: "jsstring \<Rightarrow> nat list" where
  "codePoints [] = []"
| "codePoints [c] =
     (if isHighSurrogate c \<or> isLowSurrogate c then [0xFFFD] else [unat c])"
| "codePoints (c # d # cs) =
     (if isHighSurrogate c \<and> isLowSurrogate d
        then (0x10000 + (unat c - 0xD800) * 0x400 + (unat d - 0xDC00)) # codePoints cs
      else if isHighSurrogate c \<or> isLowSurrogate c then 0xFFFD # codePoints (d # cs)
      else unat c # codePoints (d # cs))"

definition utf8 :: "nat \<Rightarrow> 8 word list" where
  "utf8 cp =
     (if cp < 0x80 then [of_nat cp]
      else if cp < 0x800 then
        [of_nat (0xC0 + cp div 0x40), of_nat (0x80 + cp mod 0x40)]
      else if cp < 0x10000 then
        [of_nat (0xE0 + cp div 0x1000), of_nat (0x80 + cp div 0x40 mod 0x40),
         of_nat (0x80 + cp mod 0x40)]
      else
        [of_nat (0xF0 + cp div 0x40000), of_nat (0x80 + cp div 0x1000 mod 0x40),
         of_nat (0x80 + cp div 0x40 mod 0x40), of_nat (0x80 + cp mod 0x40)])"

definition encode :: "jsstring \<Rightarrow> 8 word list" where
  "encode s = concat (map utf8 (codePoints s))"

subsection \<open>crypto.subtle.digest('SHA-256', data)\<close>

text \<open>
  The digest of the platform is SHA-256 as FIPS 180-4 defines it: the message is padded to
  a multiple of 64 bytes, and each block is compressed into eight 32-bit words.
\<close>

definition K256 :: "32 word list" where
  "K256 =
    [0x428A2F98, 0x71374491, 0xB5C0FBCF, 0xE9B5DBA5, 0x3956C25B, 0x59F111F1, 0x923F82A4, 0xAB1C5ED5,
     0xD807AA98, 0x12835B01, 0x243185BE, 0x550C7DC3, 0x72BE5D74, 0x80DEB1FE, 0x9BDC06A7, 0xC19BF174,
     0xE49B69C1, 0xEFBE4786, 0x0FC19DC6, 0x240CA1CC, 0x2DE92C6F, 0x4A7484AA, 0x5CB0A9DC, 0x76F988DA,
     0x983E5152, 0xA831C66D, 0xB00327C8, 0xBF597FC7, 0xC6E00BF3, 0xD5A79147, 0x06CA6351, 0x14292967,
     0x27B70A85, 0x2E1B2138, 0x4D2C6DFC, 0x53380D13, 0x650A7354, 0x766A0ABB, 0x81C2C92E, 0x92722C85,
     0xA2BFE8A1, 0xA81A664B, 0xC24B8B70, 0xC76C51A3, 0xD192E819, 0xD6990624, 0xF40E3585, 0x106AA070,
     0x19A4C116, 0x1E376C08, 0x2748774C, 0x34B0BCB5, 0x391C0CB3, 0x4ED8AA4A, 0x5B9CCA4F, 0x682E6FF3,
     0x748F82EE, 0x78A5636F, 0x84C87814, 0x8CC70208, 0x90BEFFFA, 0xA4506CEB, 0xBEF9A3F7, 0xC67178F2]"

type_synonym hash256 =
  "32 word \<times> 32 word \<times> 32 word \<times> 32 word \<times> 32 word \<times> 32 word \<times> 32 word \<times> 32 word"

definition H256 :: hash256 where
  "H256 = (0x6A09E667, 0xBB67AE85, 0x3C6EF372, 0xA54FF53A,
           0x510E527F, 0x9B05688C, 0x1F83D9AB, 0x5BE0CD19)"

definition rotr :: "nat \<Rightarrow> 32 word \<Rightarrow> 32 word" where
  "rotr n x = drop_bit n x OR push_bit (32 - n) x"

definition Ch :: "32 word \<Rightarrow> 32 word \<Rightarrow> 32 word \<Rightarrow> 32 word" where
  "Ch x y z = (x AND y) XOR (NOT x AND z)"

definition Maj :: "32 word \<Rightarrow> 32 word \<Rightarrow> 32 word \<Rightarrow> 32 word" where
  "Maj x y z = (x AND y) XOR (x AND z) XOR (y AND z)"

definition Sigma0 :: "32 word \<Rightarrow> 32 word" where
  "Sigma0 x = rotr 2 x XOR rotr 13 x XOR rotr 22 x"

definition Sigma1 :: "32 word \<Rightarrow> 32 word" where
  "Sigma1 x = rotr 6 x XOR rotr 11 x XOR rotr 25 x"

definition sigma0 :: "32 word \<Rightarrow> 32 word" where
  "sigma0 x = rotr 7 x XOR rotr 18 x XOR drop_bit 3 x"

definition sigma1 :: "32 word \<Rightarrow> 32 word" where
  "sigma1 x = rotr 17 x XOR rotr 19 x XOR drop_bit 10 x"

definition pad :: "8 word list \<Rightarrow> 8 word list" where
  "pad m =
     (let l = length m;
          k = (119 - l mod 64) mod 64;
          bits = (of_nat (8 * l) :: 64 word)
      in m @ [0x80] @ replicate k 0 @
         map (\<lambda>i. ucast (drop_bit (8 * (7 - i)) bits)) [0 ..< 8])"

fun be32 :: "8 word list \<Rightarrow> 32 word list" where
  "be32 (a # b # c # d # bs) =
     (push_bit 24 (ucast a) OR push_bit 16 (ucast b) OR push_bit 8 (ucast c) OR ucast d)
       # be32 bs"
| "be32 bs = []"

text \<open>The message schedule: the first 16 words are the block, word t is built from
  words t-2, t-7, t-15 and t-16. The schedule is kept newest first.\<close>

fun extend :: "nat \<Rightarrow> 32 word list \<Rightarrow> 32 word list" where
  "extend 0 ws = ws"
| "extend (Suc n) ws =
     extend n ((sigma1 (ws ! 1) + ws ! 6 + sigma0 (ws ! 14) + ws ! 15) # ws)"

definition schedule :: "8 word list \<Rightarrow> 32 word list" where
  "schedule block = rev (extend 48 (rev (be32 block)))"

fun round256 :: "hash256 \<Rightarrow> 32 word \<times> 32 word \<Rightarrow> hash256" where
  "round256 (a, b, c, d, e, f, g, h) (k, w) =
     (let t1 = h + Sigma1 e + Ch e f g + k + w;
          t2 = Sigma0 a + Maj a b c
      in (t1 + t2, a, b, c, d + t1, e, f, g))"

fun add256 :: "hash256 \<Rightarrow> hash256 \<Rightarrow> hash256" where
  "add256 (a, b, c, d, e, f, g, h) (a', b', c', d', e', f', g', h') =
     (a + a', b + b', c + c', d + d', e + e', f + f', g + g', h + h')"

definition compress :: "hash256 \<Rightarrow> 8 word list \<Rightarrow> hash256" where
  "compress hs block = add256 hs (foldl round256 hs (zip K256 (schedule block)))"

function blocks :: "8 word list \<Rightarrow> 8 word list list" where
  "blocks bs = (if length bs < 64 then [] else take 64 bs # blocks (drop 64 bs))"
  by pat_completeness auto
termination
  by (relation "measure length") auto

declare blocks.simps [simp del]

definition bytes32 :: "32 word \<Rightarrow> 8 word list" where
  "bytes32 w = [ucast (drop_bit 24 w), ucast (drop_bit 16 w), ucast (drop_bit 8 w), ucast w]"

fun digest_bytes :: "hash256 \<Rightarrow> 8 word list" where
  "digest_bytes (a, b, c, d, e, f, g, h) =
     bytes32 a @ bytes32 b @ bytes32 c @ bytes32 d @
     bytes32 e @ bytes32 f @ bytes32 g @ bytes32 h"

definition sha256 :: "8 word list \<Rightarrow> 8 word list" where
  "sha256 m = digest_bytes (foldl compress H256 (blocks (pad m)))"

section \<open>SKU generation\<close>

text \<open>Configuration constants of the script.\<close>

definition CHARSET :: string where
  "CHARSET = ''ABCDEFGHIJKLMNOPQRSTUVWXYZ0123456789''"

definition CHARSET_LENGTH :: nat where
  "CHARSET_LENGTH = length CHARSET"

definition SKU_LENGTH :: nat where
  "SKU_LENGTH = 12"

text \<open>
  The conversion loop of \<open>generateSKU\<close>. \<open>result\<close> is the array made by
  \<open>new Array(SKU_LENGTH)\<close>: twelve slots, each empty (\<open>None\<close>) until it is written.
  The loop state is the byte index \<open>i\<close>, \<open>resultIndex\<close> and the array.
\<close>

function convert_loop ::
  "8 word list \<Rightarrow> nat \<Rightarrow> nat \<Rightarrow> char option list \<Rightarrow> char option list" where
  "convert_loop hashArray i resultIndex result =
     (if i < length hashArray \<and> resultIndex < SKU_LENGTH then
        let byte = unat (hashArray ! i);
            result1 = result[resultIndex :=
                        Some (CHARSET ! ((byte div CHARSET_LENGTH) mod CHARSET_LENGTH))];
            resultIndex1 = resultIndex + 1
        in if resultIndex1 < SKU_LENGTH then
             convert_loop hashArray (i + 1) (resultIndex1 + 1)
               (result1[resultIndex1 := Some (CHARSET ! (byte mod CHARSET_LENGTH))])
           else convert_loop hashArray (i + 1) resultIndex1 result1
      else result)"
  by pat_completeness auto
termination
  by (relation "measure (\<lambda>(hashArray, i, resultIndex, result). length hashArray - i)") auto

declare convert_loop.simps [simp del]

text \<open>\<open>Array.prototype.join('')\<close>: an empty slot contributes the empty string.\<close>

definition join :: "char option list \<Rightarrow> string" where
  "join result = concat (map (\<lambda>slot. case slot of None \<Rightarrow> [] | Some c \<Rightarrow> [c]) result)"

text \<open>\<open>sku.replace(/O/g, '0')\<close>\<close>

definition replaceO :: "string \<Rightarrow> string" where
  "replaceO sku = map (\<lambda>c. if c = CHR ''O'' then CHR ''0'' else c) sku"

text \<open>\<open>substring(a, b)\<close> for \<open>a \<le> b\<close>: the characters from index \<open>a\<close> up to, not including,
  index \<open>b\<close>, cut at the end of the string.\<close>

definition substring :: "nat \<Rightarrow> nat \<Rightarrow> string \<Rightarrow> string" where
  "substring a b s = take (b - a) (drop a s)"

definition formatSKU :: "string \<Rightarrow> string" where
  "formatSKU sku =
     (if length sku \<noteq> SKU_LENGTH then sku
      else substring 0 4 sku @ ''-'' @ substring 4 8 sku @ ''-'' @ substring 8 12 sku)"

text \<open>The characters collected from a digest, before the replacement of O.\<close>

definition convert :: "8 word list \<Rightarrow> string" where
  "convert hashArray = join (convert_loop hashArray 0 0 (replicate SKU_LENGTH None))"

text \<open>
  \<open>generateSKU\<close>; the result \<open>None\<close> is JavaScript's \<open>null\<close>. The first guard is
  \<open>!productTitle || typeof productTitle !== 'string'\<close>; past it the argument is a string.
\<close>

definition generateSKU :: "jsval \<Rightarrow> string option" where
  "generateSKU v =
     (if \<not> truthy v \<or> \<not> is_string v then None
      else case v of
        JString productTitle \<Rightarrow>
          (let productTitle1 = trim productTitle
           in if length productTitle1 = 0 then None
              else Some (formatSKU (replaceO (convert (sha256 (encode productTitle1))))))
      | _ \<Rightarrow> None)"

section \<open>History\<close>

text \<open>
  One entry of the history. The timestamp is the text \<open>new Date().toISOString()\<close> gives.
\<close>

record history_entry =
  title :: jsstring
  sku :: string
  timestamp :: string

text \<open>
  What \<open>saveToHistory\<close> reads and writes: the value stored under the key
  \<open>skuHistory\<close> (absent until the first write; the script stores the JSON text of an
  array of entries, kept here as the array itself) and the clock.
\<close>

record world =
  skuHistory :: "history_entry list option"
  now :: string

text \<open>\<open>GM_getValue('skuHistory', '[]')\<close> followed by \<open>JSON.parse\<close>.\<close>

definition getHistory :: "world \<Rightarrow> history_entry list" where
  "getHistory w = (case skuHistory w of None \<Rightarrow> [] | Some h \<Rightarrow> h)"

text \<open>\<open>unshift\<close> puts the new entry first, \<open>slice(0, 100)\<close> keeps the first 100.\<close>

definition saveToHistory :: "jsstring \<Rightarrow> string \<Rightarrow> world \<Rightarrow> world" where
  "saveToHistory t s w =
     (let history = \<lparr>title = t, sku = s, timestamp = now w\<rparr> # getHistory w
      in w\<lparr>skuHistory := Some (take 100 history)\<rparr>)"

section \<open>Auxiliary definitions for the statements\<close>

text \<open>A title written with characters of one byte each, as a JavaScript string.\<close>

definition str :: "string \<Rightarrow> jsstring" where
  "str s = map (\<lambda>c. of_nat (of_char c)) s"

text \<open>The two characters one pass of the conversion loop writes for a digest byte.\<close>

definition symbols :: "8 word \<Rightarrow> string" where
  "symbols b = [CHARSET ! ((unat b div CHARSET_LENGTH) mod CHARSET_LENGTH),
                CHARSET ! (unat b mod CHARSET_LENGTH)]"

text \<open>
  The mapping as the specification words it, to be compared with \<open>convert\<close>: the alphabet
  is A to Z followed by 0 to 9; with \<open>n\<close> output slots left, each digest byte gives first
  the symbol at index \<open>floor(byte / 36) mod 36\<close> and then, if a slot remains, the symbol at
  index \<open>byte mod 36\<close>; nothing is emitted once no slot is left.
\<close>

definition spec_alphabet :: string where
  "spec_alphabet = ''ABCDEFGHIJKLMNOPQRSTUVWXYZ'' @ ''0123456789''"

fun spec_emit :: "nat \<Rightarrow> 8 word list \<Rightarrow> string" where
  "spec_emit n [] = []"
| "spec_emit n (b # bs) =
     (if n = 0 then []
      else spec_alphabet ! ((unat b div 36) mod 36) #
           (if n - 1 = 0 then []
            else spec_alphabet ! (unat b mod 36) # spec_emit (n - 2) bs))"

section \<open>The conversion loop\<close>

lemma length_symbols_concat: "length (concat (map symbols h)) = 2 * length h"
  by (induction h) (simp_all add: symbols_def)

lemma take_symbols_concat:
  "take (2 * n) (concat (map symbols h)) = concat (map symbols (take n h))"
proof (induction h arbitrary: n)
  case Nil
  then show ?case by simp
next
  case (Cons b h)
  show ?case
  proof (cases n)
    case 0
    then show ?thesis by simp
  next
    case (Suc m)
    then show ?thesis using Cons.IH [of m] by (simp add: symbols_def)
  qed
qed

lemma join_filled: "join (map Some cs @ replicate k None) = cs"
  by (induction cs) (simp_all add: join_def)

lemma convert_loop_join:
  assumes "resultIndex = 2 * i" and "resultIndex \<le> SKU_LENGTH" and "i \<le> length h"
    and "result = map Some (concat (map symbols (take i h))) @ replicate (SKU_LENGTH - resultIndex) None"
  shows "join (convert_loop h i resultIndex result) = take SKU_LENGTH (concat (map symbols h))"
  using assms
proof (induction h i resultIndex result rule: convert_loop.induct)
  case (1 h i ri result)
  let ?done = "concat (map symbols (take i h))"
  have len: "length ?done = ri"
    using "1.prems" by (simp add: length_symbols_concat)
  show ?case
  proof (cases "i < length h \<and> ri < SKU_LENGTH")
    case False
    have res: "convert_loop h i ri result = result"
      by (subst convert_loop.simps) (simp only: False if_False)
    have "?done = take SKU_LENGTH (concat (map symbols h))"
    proof (cases "i < length h")
      case True
      with False "1.prems" have "ri = SKU_LENGTH" by simp
      then show ?thesis using "1.prems"(1) take_symbols_concat [of i h] by simp
    next
      case False
      with "1.prems" have "take i h = h" by simp
      then show ?thesis using len "1.prems"(2) by simp
    qed
    then show ?thesis using res "1.prems"(4) by (simp add: join_filled)
  next
    case True
    then have ri: "Suc ri < SKU_LENGTH"
      using "1.prems"(1) by (simp add: SKU_LENGTH_def)
    define a where "a = CHARSET ! ((unat (h ! i) div CHARSET_LENGTH) mod CHARSET_LENGTH)"
    define b where "b = CHARSET ! (unat (h ! i) mod CHARSET_LENGTH)"
    define result2 where "result2 = result[ri := Some a, ri + 1 := Some b]"
    have step: "convert_loop h i ri result = convert_loop h (i + 1) (ri + 1 + 1) result2"
      by (subst convert_loop.simps, simp only: True if_True)
         (simp add: Let_def a_def b_def result2_def ri)
    have tk: "take (i + 1) h = take i h @ [h ! i]"
      using True by (simp add: take_Suc_conv_app_nth)
    have rep: "replicate (SKU_LENGTH - ri) None
               = (None :: char option) # None # replicate (SKU_LENGTH - (ri + 1 + 1)) None"
      using ri by (simp add: replicate_append_same Suc_diff_Suc flip: replicate_Suc)
    have ri': "ri + 1 < SKU_LENGTH" using ri by simp
    have p1: "ri + 1 + 1 = 2 * (i + 1)" using "1.prems"(1) by simp
    have p2: "ri + 1 + 1 \<le> SKU_LENGTH" using ri by simp
    have p3: "i + 1 \<le> length h" using True by simp
    have p4: "result2 = map Some (concat (map symbols (take (i + 1) h)))
                      @ replicate (SKU_LENGTH - (ri + 1 + 1)) None"
      unfolding result2_def "1.prems"(4) rep tk
      using len by (simp add: list_update_append symbols_def a_def b_def)
    have "join (convert_loop h (i + 1) (ri + 1 + 1) result2)
               = take SKU_LENGTH (concat (map symbols h))"
      unfolding result2_def a_def b_def
      by (rule "1.IH"(1) [OF True refl refl refl ri' p1 p2 p3
            p4 [unfolded result2_def a_def b_def]])
    with step show ?thesis by simp
  qed
qed

lemma spec_alphabet_CHARSET: "spec_alphabet = CHARSET"
  by (simp add: spec_alphabet_def CHARSET_def)

lemma CHARSET_LENGTH_36: "CHARSET_LENGTH = 36"
  by (simp add: CHARSET_LENGTH_def CHARSET_def)

lemma convert_symbols: "convert h = take 12 (concat (map symbols h))"
  using convert_loop_join [of 0 0 h "replicate SKU_LENGTH None"]
  by (simp add: convert_def SKU_LENGTH_def)

lemma spec_emit_symbols: "spec_emit n h = take n (concat (map symbols h))"
proof (induction n h rule: spec_emit.induct)
  case (1 n)
  show ?case by simp
next
  case (2 n b bs)
  show ?case
  proof (cases "n = 0 \<or> n = 1")
    case True
    then show ?thesis by (auto simp: symbols_def spec_alphabet_CHARSET CHARSET_LENGTH_36)
  next
    case False
    then obtain m where n: "n = Suc (Suc m)"
      by (metis One_nat_def not0_implies_Suc)
    with 2 show ?thesis by (simp add: symbols_def spec_alphabet_CHARSET CHARSET_LENGTH_36)
  qed
qed

lemma length_digest_bytes: "length (digest_bytes hs) = 32"
  by (cases hs rule: digest_bytes.cases) (simp add: bytes32_def)

lemma length_sha256: "length (sha256 m) = 32"
  by (simp add: sha256_def length_digest_bytes)

lemma take6: "6 \<le> length h \<Longrightarrow> take 6 h = [h ! 0, h ! 1, h ! 2, h ! 3, h ! 4, h ! 5]"
  by (simp add: list_eq_iff_nth_eq numeral_eq_Suc All_less_Suc)

lemma convert_take6: "convert h = convert (take 6 h)"
  using take_symbols_concat [of 6 h] take_symbols_concat [of 6 "take 6 h"]
  by (simp add: convert_symbols)

lemma length_convert: "6 \<le> length h \<Longrightarrow> length (convert h) = 12"
  by (simp add: convert_symbols length_symbols_concat)

lemma convert_explicit:
  assumes "6 \<le> length h"
  shows "convert h = symbols (h ! 0) @ symbols (h ! 1) @ symbols (h ! 2)
                       @ symbols (h ! 3) @ symbols (h ! 4) @ symbols (h ! 5)"
proof -
  have "convert h = concat (map symbols (take 6 h))"
    using take_symbols_concat [of 6 h] by (simp add: convert_symbols)
  then show ?thesis by (simp add: take6 [OF assms])
qed

section \<open>Trimming\<close>

lemma dropWhile_rev_prefix:
  assumes "xs = [] \<or> \<not> P (hd xs)"
  shows "dropWhile P (rev (dropWhile P (rev xs))) = rev (dropWhile P (rev xs))"
proof (cases "rev (dropWhile P (rev xs))")
  case Nil
  then show ?thesis by (simp only: dropWhile.simps)
next
  case (Cons y ys)
  have "rev xs = takeWhile P (rev xs) @ dropWhile P (rev xs)" by simp
  then have "xs = rev (dropWhile P (rev xs)) @ rev (takeWhile P (rev xs))"
    by (metis rev_append rev_rev_ident)
  with Cons have xs: "xs = y # ys @ rev (takeWhile P (rev xs))" by simp
  then have "xs \<noteq> []" and "hd xs = y" by (metis list.distinct(1), metis list.sel(1))
  with assms have "\<not> P y" by auto
  with Cons show ?thesis by simp
qed

lemma dropWhile_hd: "dropWhile P xs = [] \<or> \<not> P (hd (dropWhile P xs))"
  by (metis hd_dropWhile)

lemma trim_idem: "trim (trim s) = trim s"
  unfolding trim_def
  using dropWhile_rev_prefix [of "dropWhile isWhiteSpace s" isWhiteSpace]
    dropWhile_hd [of isWhiteSpace s]
  by simp

lemma trim_Nil: "trim [] = []"
  by (simp add: trim_def)

lemma generateSKU_string:
  "generateSKU (JString s) =
     (if trim s = [] then None
      else Some (formatSKU (replaceO (convert (sha256 (encode (trim s)))))))"
  by (auto simp: generateSKU_def Let_def trim_Nil)

section \<open>Symbols and formatting\<close>

lemma unat_byte_div: "unat (b :: 8 word) div 36 < 8"
proof -
  have "unat b < 2 ^ 8" using unsigned_less [of b] by simp
  then show ?thesis by simp
qed

lemma high_symbol:
  "CHARSET ! ((unat (b :: 8 word) div CHARSET_LENGTH) mod CHARSET_LENGTH)
   = CHARSET ! (unat b div 36)"
  using unat_byte_div [of b] by (simp add: CHARSET_LENGTH_36)

lemma CHARSET_first8: "k < 8 \<Longrightarrow> CHARSET ! k \<in> set ''ABCDEFGH''"
  by (auto simp: CHARSET_def less_Suc_eq numeral_eq_Suc)

lemma high_symbol_range: "CHARSET ! (unat (b :: 8 word) div 36) \<in> set ''ABCDEFGH''"
  using unat_byte_div [of b] by (rule CHARSET_first8)

lemma nth_CHARSET: "CHARSET ! (k mod CHARSET_LENGTH) \<in> set CHARSET"
  by (intro nth_mem) (simp add: CHARSET_LENGTH_def CHARSET_def)

lemma set_convert: "set (convert h) \<subseteq> set CHARSET"
proof -
  have "set (symbols b) \<subseteq> set CHARSET" for b
    using nth_CHARSET [of "unat b"] nth_CHARSET [of "unat b div CHARSET_LENGTH"]
    by (simp add: symbols_def)
  then have "set (concat (map symbols h)) \<subseteq> set CHARSET" by auto
  then show ?thesis
    unfolding convert_symbols by (meson order_trans set_take_subset)
qed

lemma formatSKU_12:
  "length s = 12 \<Longrightarrow>
   formatSKU s = [s ! 0, s ! 1, s ! 2, s ! 3, CHR ''-'', s ! 4, s ! 5, s ! 6, s ! 7,
                  CHR ''-'', s ! 8, s ! 9, s ! 10, s ! 11]"
  by (auto simp: formatSKU_def substring_def SKU_LENGTH_def numeral_eq_Suc length_Suc_conv)

lemma replaceO_range:
  "c \<in> set CHARSET \<Longrightarrow>
   (if c = CHR ''O'' then CHR ''0'' else c) \<in> set ''ABCDEFGHIJKLMNPQRSTUVWXYZ0123456789''"
  by (auto simp: CHARSET_def)

section \<open>Digests of three messages\<close>

text \<open>The one-block example of FIPS 180-4, the message \<open>abc\<close>, as a check of the model.\<close>

lemma sha256_abc:
  "sha256 [0x61, 0x62, 0x63] =
     [0xba, 0x78, 0x16, 0xbf, 0x8f, 0x01, 0xcf, 0xea, 0x41, 0x41, 0x40, 0xde, 0x5d, 0xae, 0x22, 0x23,
      0xb0, 0x03, 0x61, 0xa3, 0x96, 0x17, 0x7a, 0x9c, 0xb4, 0x10, 0xff, 0x61, 0xf2, 0x00, 0x15, 0xad]"
  by code_simp

lemma sha256_A:
  "sha256 [0x41] =
     [0x55, 0x9a, 0xea, 0xd0, 0x82, 0x64, 0xd5, 0x79, 0x5d, 0x39, 0x09, 0x71, 0x8c, 0xdd, 0x05, 0xab,
      0xd4, 0x95, 0x72, 0xe8, 0x4f, 0xe5, 0x55, 0x90, 0xee, 0xf3, 0x1a, 0x88, 0xa0, 0x8f, 0xdf, 0xfd]"
  by code_simp

lemma sha256_a:
  "sha256 [0x61] =
     [0xca, 0x97, 0x81, 0x12, 0xca, 0x1b, 0xbd, 0xca, 0xfa, 0xc2, 0x31, 0xb3, 0x9a, 0x23, 0xdc, 0x4d,
      0xa7, 0x86, 0xef, 0xf8, 0x14, 0x7c, 0x4e, 0x72, 0xb9, 0x80, 0x77, 0x85, 0xaf, 0xee, 0x48, 0xbb]"
  by code_simp

lemma trim_str_a: "trim (str ''a'') = [0x61]"
  by (simp add: trim_def str_def isWhiteSpace_def)

lemma trim_str_A: "trim (str ''A'') = [0x41]"
  by (simp add: trim_def str_def isWhiteSpace_def)

lemma encode_a: "encode [0x61] = [0x61]"
  by (simp add: encode_def utf8_def isHighSurrogate_def isLowSurrogate_def)

lemma encode_A: "encode [0x41] = [0x41]"
  by (simp add: encode_def utf8_def isHighSurrogate_def isLowSurrogate_def)

lemma length_replaceO: "length (replaceO s) = length s"
  by (simp add: replaceO_def)

lemma set_replaceO_convert:
  "set (replaceO (convert h)) \<subseteq> set ''ABCDEFGHIJKLMNPQRSTUVWXYZ0123456789''"
proof
  fix c assume "c \<in> set (replaceO (convert h))"
  then obtain c' where c': "c' \<in> set (convert h)"
    and c: "c = (if c' = CHR ''O'' then CHR ''0'' else c')"
    by (auto simp: replaceO_def)
  from c' set_convert have "c' \<in> set CHARSET" by blast
  then show "c \<in> set ''ABCDEFGHIJKLMNPQRSTUVWXYZ0123456789''"
    unfolding c by (rule replaceO_range)
qed

lemma generateSKU_sampled:
  assumes "trim t \<noteq> []"
  shows "generateSKU (JString t)
         = Some (formatSKU (replaceO (convert (sha256 (encode (trim t))))))"
  using assms by (subst generateSKU_string) simp


lemma trim_str_Widget: "trim (str ''  Widget  '') = str ''Widget''"
  by (simp add: trim_def str_def isWhiteSpace_def)

section \<open>Evaluation at concrete digests\<close>

lemma sku_of_digest_a:
  "formatSKU (replaceO (convert
     [0xca, 0x97, 0x81, 0x12, 0xca, 0x1b, 0xbd, 0xca, 0xfa, 0xc2, 0x31, 0xb3, 0x9a, 0x23, 0xdc, 0x4d,
      0xa7, 0x86, 0xef, 0xf8, 0x14, 0x7c, 0x4e, 0x72, 0xb9, 0x80, 0x77, 0x85, 0xaf, 0xee, 0x48, 0xbb]))
   = ''FWEH-DVAS-FWA1''"
  by code_simp

lemma sku_of_digest_A:
  "formatSKU (replaceO (convert
     [0x55, 0x9a, 0xea, 0xd0, 0x82, 0x64, 0xd5, 0x79, 0x5d, 0x39, 0x09, 0x71, 0x8c, 0xdd, 0x05, 0xab,
      0xd4, 0x95, 0x72, 0xe8, 0x4f, 0xe5, 0x55, 0x90, 0xee, 0xf3, 0x1a, 0x88, 0xa0, 0x8f, 0xdf, 0xfd]))
   = ''CNEK-GSF2-DWC2''"
  by code_simp

lemma generateSKU_str_a: "generateSKU (JString (str ''a'')) = Some ''FWEH-DVAS-FWA1''"
  by (simp only: generateSKU_string trim_str_a encode_a sha256_a sku_of_digest_a) simp

lemma generateSKU_str_A: "generateSKU (JString (str ''A'')) = Some ''CNEK-GSF2-DWC2''"
  by (simp only: generateSKU_string trim_str_A encode_A sha256_A sku_of_digest_A) simp

lemma trim_str_padded_a: "trim (str '' a  '') = str ''a''"
  by (simp add: trim_def str_def isWhiteSpace_def)

lemma convert_O:
  "convert (14 # replicate 31 0) = ''AOAAAAAAAAAA''"
  "convert (26 # replicate 31 0) = ''A0AAAAAAAAAA''"
  by code_simp+

lemma symbols_14: "symbols 14 = ''AO''"
  by (simp add: symbols_def CHARSET_def CHARSET_LENGTH_def)

section \<open>Claims\<close>

text \<open>
  C1. For a title that is not empty after trimming, \<open>generateSKU\<close> maps the SHA-256 digest
  of the UTF-8 bytes of the trimmed title to characters as the specification words it
  (\<open>spec_emit\<close> over the alphabet A to Z, 0 to 9, of 36 symbols): for each byte the symbol
  at index \<open>floor(byte / 36) mod 36\<close>, then, if fewer than 12 characters are out, the symbol
  at index \<open>byte mod 36\<close>. Exactly 12 characters come out, and they depend on the first 6
  digest bytes only. The result is these characters with O replaced and dashes inserted.
\<close>

theorem generateSKU_mapping:
  assumes "trim t \<noteq> []"
  shows "let digest = sha256 (encode (trim t)) in
           spec_alphabet = CHARSET \<and> length CHARSET = 36 \<and>
           convert digest = spec_emit 12 digest \<and>
           length (spec_emit 12 digest) = 12 \<and>
           spec_emit 12 digest = spec_emit 12 (take 6 digest) \<and>
           generateSKU (JString t) = Some (formatSKU (replaceO (spec_emit 12 digest)))"
proof -
  define digest where "digest = sha256 (encode (trim t))"
  have len: "6 \<le> length digest" by (simp add: digest_def length_sha256)
  have c: "convert digest = spec_emit 12 digest"
    by (simp add: convert_symbols spec_emit_symbols)
  have l: "length (spec_emit 12 digest) = 12"
    using length_convert [OF len] c by simp
  have t6: "spec_emit 12 digest = spec_emit 12 (take 6 digest)"
    using convert_take6 [of digest] by (simp add: convert_symbols spec_emit_symbols)
  have g: "generateSKU (JString t) = Some (formatSKU (replaceO (spec_emit 12 digest)))"
    using assms c unfolding digest_def by (subst generateSKU_string) simp
  have n: "length CHARSET = 36" by (simp add: CHARSET_def)
  show ?thesis
    unfolding Let_def digest_def [symmetric]
    using spec_alphabet_CHARSET n c l t6 g by blast
qed

theorem generateSKU_mapping_witness:
  "trim (str ''a'') \<noteq> [] \<and>
   convert (sha256 (encode (trim (str ''a'')))) = ''FWEHDVASFWA1'' \<and>
   generateSKU (JString (str ''a'')) = Some (formatSKU (replaceO ''FWEHDVASFWA1''))"
  using generateSKU_mapping [of "str ''a''"]
  by (simp add: trim_str_a encode_a sha256_a spec_alphabet_def Let_def)

text \<open>
  C2. For a title that is not empty after trimming, the result has 14 characters: three
  groups of four separated by dashes at positions 4 and 9; every other character is one of
  A to N, P to Z, 0 to 9, and the letter O does not occur.
\<close>

theorem generateSKU_pattern:
  assumes "trim t \<noteq> []"
  shows "\<exists>s. generateSKU (JString t) = Some s \<and> length s = 14 \<and>
             s ! 4 = CHR ''-'' \<and> s ! 9 = CHR ''-'' \<and>
             (\<forall>i<14. i \<noteq> 4 \<longrightarrow> i \<noteq> 9 \<longrightarrow>
                s ! i \<in> set ''ABCDEFGHIJKLMNPQRSTUVWXYZ0123456789'') \<and>
             CHR ''O'' \<notin> set s"
proof -
  define s12 where "s12 = replaceO (convert (sha256 (encode (trim t))))"
  let ?A = "set ''ABCDEFGHIJKLMNPQRSTUVWXYZ0123456789''"
  have len: "length s12 = 12"
    by (simp add: s12_def length_replaceO length_convert length_sha256)
  have m: "s12 ! k \<in> ?A" if "k < 12" for k
  proof -
    have "s12 ! k \<in> set s12" using that len by simp
    with set_replaceO_convert [of "sha256 (encode (trim t))"] show ?thesis
      unfolding s12_def by (rule subsetD)
  qed
  have m12: "s12 ! 0 \<in> ?A" "s12 ! 1 \<in> ?A" "s12 ! 2 \<in> ?A" "s12 ! 3 \<in> ?A"
    "s12 ! 4 \<in> ?A" "s12 ! 5 \<in> ?A" "s12 ! 6 \<in> ?A" "s12 ! 7 \<in> ?A"
    "s12 ! 8 \<in> ?A" "s12 ! 9 \<in> ?A" "s12 ! 10 \<in> ?A" "s12 ! 11 \<in> ?A"
    by (rule m, simp)+
  have fmt: "formatSKU s12 = [s12 ! 0, s12 ! 1, s12 ! 2, s12 ! 3, CHR ''-'',
               s12 ! 4, s12 ! 5, s12 ! 6, s12 ! 7, CHR ''-'',
               s12 ! 8, s12 ! 9, s12 ! 10, s12 ! 11]"
    using len by (rule formatSKU_12)
  have g: "generateSKU (JString t) = Some (formatSKU s12)"
    unfolding s12_def using assms by (rule generateSKU_sampled)
  have l14: "length (formatSKU s12) = 14" by (simp add: fmt)
  have d4: "formatSKU s12 ! 4 = CHR ''-''" by (simp add: fmt)
  have d9: "formatSKU s12 ! 9 = CHR ''-''" by (simp add: fmt)
  define A where "A = set ''ABCDEFGHIJKLMNPQRSTUVWXYZ0123456789''"
  have mA: "s12 ! 0 \<in> A" "s12 ! 1 \<in> A" "s12 ! 2 \<in> A" "s12 ! 3 \<in> A"
    "s12 ! 4 \<in> A" "s12 ! 5 \<in> A" "s12 ! 6 \<in> A" "s12 ! 7 \<in> A"
    "s12 ! 8 \<in> A" "s12 ! 9 \<in> A" "s12 ! 10 \<in> A" "s12 ! 11 \<in> A"
    unfolding A_def by (rule m12)+
  have "\<forall>i<14. i \<noteq> 4 \<longrightarrow> i \<noteq> 9 \<longrightarrow> formatSKU s12 ! i \<in> A"
    using mA by (simp add: fmt numeral_eq_Suc All_less_Suc)
  then have others: "\<forall>i<14. i \<noteq> 4 \<longrightarrow> i \<noteq> 9 \<longrightarrow> formatSKU s12 ! i \<in> ?A"
    unfolding A_def .
  have "set (formatSKU s12) \<subseteq> insert (CHR ''-'') A"
    using mA by (simp add: fmt)
  then have noO: "CHR ''O'' \<notin> set (formatSKU s12)"
    unfolding A_def by auto
  from g l14 d4 d9 others noO show ?thesis by blast
qed

theorem generateSKU_pattern_witness:
  "trim (str ''A'') \<noteq> [] \<and>
   (\<exists>s. generateSKU (JString (str ''A'')) = Some s \<and> length s = 14 \<and>
             s ! 4 = CHR ''-'' \<and> s ! 9 = CHR ''-'' \<and>
             (\<forall>i<14. i \<noteq> 4 \<longrightarrow> i \<noteq> 9 \<longrightarrow>
                s ! i \<in> set ''ABCDEFGHIJKLMNPQRSTUVWXYZ0123456789'') \<and>
             CHR ''O'' \<notin> set s)"
  using generateSKU_pattern [of "str ''A''"] by (simp only: trim_str_A) simp



text \<open>
  C4. The replacement of O is a step on the text, after the conversion: the alphabet of
  36 symbols contains O (the digest byte 14 gives it), \<open>generateSKU\<close> replaces every O of
  the 12 converted characters by the digit 0 and leaves every other character as it is, and
  only then formats. So two digests whose converted characters differ only where one has O
  and the other 0 get the same SKU.
\<close>

theorem replaceO_after_conversion:
  "CHR ''O'' \<in> set CHARSET \<and> length CHARSET = 36 \<and> symbols 14 = ''AO'' \<and>
   (trim t \<noteq> [] \<longrightarrow>
      generateSKU (JString t)
        = Some (formatSKU (replaceO (convert (sha256 (encode (trim t))))))) \<and>
   length (replaceO s) = length s \<and>
   (\<forall>i<length s. replaceO s ! i = (if s ! i = CHR ''O'' then CHR ''0'' else s ! i)) \<and>
   (list_all2 (\<lambda>x y. x = y \<or> (x \<in> {CHR ''O'', CHR ''0''} \<and> y \<in> {CHR ''O'', CHR ''0''}))
      (convert d1) (convert d2)
    \<longrightarrow> formatSKU (replaceO (convert d1)) = formatSKU (replaceO (convert d2)))"
proof -
  have 1: "CHR ''O'' \<in> set CHARSET \<and> length CHARSET = 36"
    by (simp add: CHARSET_def)
  have 2: "trim t \<noteq> [] \<longrightarrow> generateSKU (JString t)
        = Some (formatSKU (replaceO (convert (sha256 (encode (trim t))))))"
    using generateSKU_sampled by blast
  have 3: "\<forall>i<length s. replaceO s ! i = (if s ! i = CHR ''O'' then CHR ''0'' else s ! i)"
    by (simp add: replaceO_def)
  have 4: "replaceO xs = replaceO ys"
    if "list_all2 (\<lambda>x y. x = y \<or> (x \<in> {CHR ''O'', CHR ''0''} \<and> y \<in> {CHR ''O'', CHR ''0''})) xs ys"
    for xs ys
    using that by (induction rule: list_all2_induct) (auto simp: replaceO_def)
  from 1 2 3 4 [of "convert d1" "convert d2"] symbols_14 length_replaceO [of s]
  show ?thesis by presburger
qed

theorem replaceO_after_conversion_witness:
  "trim (str ''a'') \<noteq> [] \<and>
   list_all2 (\<lambda>x y. x = y \<or> (x \<in> {CHR ''O'', CHR ''0''} \<and> y \<in> {CHR ''O'', CHR ''0''}))
      (convert (14 # replicate 31 0)) (convert (26 # replicate 31 0)) \<and>
   convert (14 # replicate 31 0) \<noteq> convert (26 # replicate 31 0) \<and>
   formatSKU (replaceO (convert (14 # replicate 31 0))) = ''A0AA-AAAA-AAAA'' \<and>
   formatSKU (replaceO (convert (26 # replicate 31 0))) = ''A0AA-AAAA-AAAA'' \<and>
   replaceO ''AO0B'' ! 1 = CHR ''0''"
  using replaceO_after_conversion [of "str ''a''" "''AO0B''" "14 # replicate 31 0" "26 # replicate 31 0"]
  by (simp add: convert_O trim_str_a formatSKU_def SKU_LENGTH_def substring_def replaceO_def)

text \<open>
  C5. Surrounding whitespace does not change the result: for every string \<open>t\<close>,
  \<open>generateSKU(t)\<close> equals \<open>generateSKU(trim(t))\<close>; so the titles
  \<open>"  Widget  "\<close> and \<open>"Widget"\<close> get the same SKU.
\<close>

theorem generateSKU_trim:
  "generateSKU (JString t) = generateSKU (JString (trim t)) \<and>
   generateSKU (JString (str ''  Widget  '')) = generateSKU (JString (str ''Widget''))"
proof -
  have g: "generateSKU (JString t) = generateSKU (JString (trim t))" for t
    by (simp only: generateSKU_string trim_idem)
  from g [of t] g [of "str ''  Widget  ''"] show ?thesis
    by (simp only: trim_str_Widget simp_thms)
qed

theorem generateSKU_trim_witness:
  "trim (str '' a  '') = str ''a'' \<and>
   generateSKU (JString (str '' a  '')) = Some ''FWEH-DVAS-FWA1'' \<and>
   generateSKU (JString (str ''a'')) = Some ''FWEH-DVAS-FWA1''"
  using generateSKU_trim [of "str '' a  ''"]
  by (simp add: trim_str_padded_a generateSKU_str_a)

text \<open>
  C7. \<open>formatSKU\<close> puts a dash after the 4th and after the 8th character of a string of
  12 characters and returns a string of any other length as it is. Inside \<open>generateSKU\<close>,
  for a title that is not empty after trimming, the string given to \<open>formatSKU\<close> always
  has 12 characters, so the second case does not occur there.
\<close>

theorem formatSKU_cases:
  "(length s = 12 \<longrightarrow>
      formatSKU s = take 4 s @ ''-'' @ take 4 (drop 4 s) @ ''-'' @ drop 8 s) \<and>
   (length s \<noteq> 12 \<longrightarrow> formatSKU s = s) \<and>
   (trim t \<noteq> [] \<longrightarrow>
      length (replaceO (convert (sha256 (encode (trim t))))) = 12 \<and>
      generateSKU (JString t)
        = Some (formatSKU (replaceO (convert (sha256 (encode (trim t)))))))"
proof (intro conjI impI)
  assume "length s = 12"
  then show "formatSKU s = take 4 s @ ''-'' @ take 4 (drop 4 s) @ ''-'' @ drop 8 s"
    by (simp add: formatSKU_def substring_def SKU_LENGTH_def)
next
  assume "length s \<noteq> 12"
  then show "formatSKU s = s" by (simp add: formatSKU_def SKU_LENGTH_def)
next
  show "length (replaceO (convert (sha256 (encode (trim t))))) = 12"
    by (simp add: length_replaceO length_convert length_sha256)
next
  assume "trim t \<noteq> []"
  then show "generateSKU (JString t)
        = Some (formatSKU (replaceO (convert (sha256 (encode (trim t))))))"
    by (rule generateSKU_sampled)
qed

theorem formatSKU_cases_witness:
  "length ''ABCDEFGHIJKL'' = 12 \<and> formatSKU ''ABCDEFGHIJKL'' = ''ABCD-EFGH-IJKL'' \<and>
   length ''ABCDEFGHIJK'' \<noteq> 12 \<and> formatSKU ''ABCDEFGHIJK'' = ''ABCDEFGHIJK'' \<and>
   trim (str ''a'') \<noteq> [] \<and>
   length (replaceO (convert (sha256 (encode (trim (str ''a'')))))) = 12"
  using formatSKU_cases [of "''ABCDEFGHIJKL''" "str ''a''"]
    formatSKU_cases [of "''ABCDEFGHIJK''" "str ''a''"]
  by (simp add: trim_str_a)

text \<open>
  C8. The titles \<open>"a"\<close> and \<open>"A"\<close> get different SKUs: their UTF-8 encodings are the
  bytes 0x61 and 0x41, and the SHA-256 digests of these differ within the first 6 bytes,
  which are the bytes the conversion reads.
\<close>

theorem generateSKU_case_sensitive:
  "encode (trim (str ''a'')) = [0x61] \<and> encode (trim (str ''A'')) = [0x41] \<and>
   take 6 (sha256 [0x61]) = [0xca, 0x97, 0x81, 0x12, 0xca, 0x1b] \<and>
   take 6 (sha256 [0x41]) = [0x55, 0x9a, 0xea, 0xd0, 0x82, 0x64] \<and>
   generateSKU (JString (str ''a'')) = Some ''FWEH-DVAS-FWA1'' \<and>
   generateSKU (JString (str ''A'')) = Some ''CNEK-GSF2-DWC2'' \<and>
   generateSKU (JString (str ''a'')) \<noteq> generateSKU (JString (str ''A''))"
proof -
  note a = generateSKU_str_a and A = generateSKU_str_A
  have e: "encode (trim (str ''a'')) = [0x61]" "encode (trim (str ''A'')) = [0x41]"
    by (simp_all only: trim_str_a trim_str_A encode_a encode_A)
  have d: "take 6 (sha256 [0x61]) = [0xca, 0x97, 0x81, 0x12, 0xca, 0x1b]"
    "take 6 (sha256 [0x41]) = [0x55, 0x9a, 0xea, 0xd0, 0x82, 0x64]"
    by (simp_all add: sha256_a sha256_A)
  have "generateSKU (JString (str ''a'')) \<noteq> generateSKU (JString (str ''A''))"
    unfolding a A by simp
  with a A e d show ?thesis by blast
qed

theorem generateSKU_case_sensitive_witness:
  "generateSKU (JString (str ''a'')) = Some ''FWEH-DVAS-FWA1'' \<and>
   generateSKU (JString (str ''A'')) = Some ''CNEK-GSF2-DWC2'' \<and>
   ''FWEH-DVAS-FWA1'' \<noteq> ''CNEK-GSF2-DWC2''"
  using generateSKU_case_sensitive by simp

text \<open>
  C9. A call of \<open>saveToHistory\<close> puts one new entry (title, SKU, time of the call) in
  front of the stored history and stores the first 100 entries of that list: the new entry
  followed by the most recent prior entries. The stored history then has at most 100
  entries, whatever was stored before.
\<close>

theorem saveToHistory_capped:
  "getHistory (saveToHistory t s w)
     = take 100 (\<lparr>title = t, sku = s, timestamp = now w\<rparr> # getHistory w) \<and>
   getHistory (saveToHistory t s w)
     = \<lparr>title = t, sku = s, timestamp = now w\<rparr> # take 99 (getHistory w) \<and>
   length (getHistory (saveToHistory t s w)) = min 100 (length (getHistory w) + 1) \<and>
   length (getHistory (saveToHistory t s w)) \<le> 100 \<and>
   now (saveToHistory t s w) = now w"
  by (simp add: saveToHistory_def getHistory_def Let_def numeral_eq_Suc split: option.split)

theorem saveToHistory_capped_witness:
  "getHistory (saveToHistory (str ''a'') ''FWEH-DVAS-FWA1''
      \<lparr>skuHistory = Some (replicate 100 \<lparr>title = str ''b'', sku = ''X'', timestamp = ''T0''\<rparr>),
       now = ''T1''\<rparr>)
   = \<lparr>title = str ''a'', sku = ''FWEH-DVAS-FWA1'', timestamp = ''T1''\<rparr>
       # replicate 99 \<lparr>title = str ''b'', sku = ''X'', timestamp = ''T0''\<rparr> \<and>
   length (getHistory (saveToHistory (str ''a'') ''FWEH-DVAS-FWA1''
      \<lparr>skuHistory = Some (replicate 100 \<lparr>title = str ''b'', sku = ''X'', timestamp = ''T0''\<rparr>),
       now = ''T1''\<rparr>)) = 100 \<and>
   getHistory (saveToHistory (str ''a'') ''FWEH-DVAS-FWA1'' \<lparr>skuHistory = None, now = ''T1''\<rparr>)
   = [\<lparr>title = str ''a'', sku = ''FWEH-DVAS-FWA1'', timestamp = ''T1''\<rparr>]"
  using saveToHistory_capped [of "str ''a''" "''FWEH-DVAS-FWA1''"
      "\<lparr>skuHistory = Some (replicate 100 \<lparr>title = str ''b'', sku = ''X'', timestamp = ''T0''\<rparr>),
        now = ''T1''\<rparr>"]
    saveToHistory_capped [of "str ''a''" "''FWEH-DVAS-FWA1''" "\<lparr>skuHistory = None, now = ''T1''\<rparr>"]
  by (simp add: getHistory_def)

text \<open>
  C10. In every SKU \<open>generateSKU\<close> returns, the 1st and 3rd character of each group
  (positions 0, 2, 5, 7, 10 and 12) are the symbols at index \<open>floor(byte / 36)\<close> of the
  first six digest bytes, and lie between A and H: for a byte, \<open>floor(byte / 36)\<close> is at
  most 7, so taking it modulo 36 changes nothing, and the replacement of O does not touch
  these characters.
\<close>

theorem generateSKU_high_symbols:
  assumes "trim t \<noteq> []"
  shows "(\<forall>b :: 8 word. unat b div 36 \<le> 7 \<and> (unat b div 36) mod 36 = unat b div 36) \<and>
         (\<exists>s. generateSKU (JString t) = Some s \<and>
            (\<forall>k<6. s ! ([0, 2, 5, 7, 10, 12] ! k)
                      = CHARSET ! (unat (sha256 (encode (trim t)) ! k) div 36) \<and>
                    s ! ([0, 2, 5, 7, 10, 12] ! k)
                      = formatSKU (convert (sha256 (encode (trim t)))) ! ([0, 2, 5, 7, 10, 12] ! k) \<and>
                    s ! ([0, 2, 5, 7, 10, 12] ! k) \<in> set ''ABCDEFGH''))"
proof -
  define d where "d = sha256 (encode (trim t))"
  define a where "a k = CHARSET ! (unat (d ! k) div 36)" for k
  define b where "b k = CHARSET ! (unat (d ! k) mod CHARSET_LENGTH)" for k
  define r where "r c = (if c = CHR ''O'' then CHR ''0'' else c)" for c
  define H where "H = set ''ABCDEFGH''"
  have len: "6 \<le> length d" by (simp add: d_def length_sha256)
  have bytes: "\<forall>b :: 8 word. unat b div 36 \<le> 7 \<and> (unat b div 36) mod 36 = unat b div 36"
  proof
    fix b :: "8 word"
    from unat_byte_div [of b] show "unat b div 36 \<le> 7 \<and> (unat b div 36) mod 36 = unat b div 36"
      by simp
  qed
  have conv: "convert d = [a 0, b 0, a 1, b 1, a 2, b 2, a 3, b 3, a 4, b 4, a 5, b 5]"
    using convert_explicit [OF len] by (simp add: symbols_def high_symbol a_def b_def)
  have aH: "a k \<in> H" for k
    unfolding a_def H_def by (rule high_symbol_range)
  have aO: "a k \<noteq> CHR ''O''" for k
    using aH [of k] by (auto simp: H_def)
  have s12: "replaceO (convert d)
             = [a 0, r (b 0), a 1, r (b 1), a 2, r (b 2), a 3, r (b 3), a 4, r (b 4), a 5, r (b 5)]"
    by (simp add: conv replaceO_def aO r_def)
  have fmt: "formatSKU (replaceO (convert d))
             = [a 0, r (b 0), a 1, r (b 1), CHR ''-'', a 2, r (b 2), a 3, r (b 3), CHR ''-'',
                a 4, r (b 4), a 5, r (b 5)]"
    by (simp add: formatSKU_12 s12)
  have fmt0: "formatSKU (convert d)
             = [a 0, b 0, a 1, b 1, CHR ''-'', a 2, b 2, a 3, b 3, CHR ''-'',
                a 4, b 4, a 5, b 5]"
    by (simp add: formatSKU_12 conv)
  have g: "generateSKU (JString t) = Some (formatSKU (replaceO (convert d)))"
    unfolding d_def using assms by (rule generateSKU_sampled)
  have pos: "\<forall>k<6. formatSKU (replaceO (convert d)) ! ([0, 2, 5, 7, 10, 12] ! k) = a k \<and>
                   formatSKU (replaceO (convert d)) ! ([0, 2, 5, 7, 10, 12] ! k)
                     = formatSKU (convert d) ! ([0, 2, 5, 7, 10, 12] ! k) \<and>
                   formatSKU (replaceO (convert d)) ! ([0, 2, 5, 7, 10, 12] ! k) \<in> H"
    using aH unfolding fmt fmt0 by (simp add: numeral_eq_Suc All_less_Suc)
  show ?thesis
    using bytes g pos unfolding a_def H_def d_def by blast
qed

theorem generateSKU_high_symbols_witness:
  "trim (str ''A'') \<noteq> [] \<and>
   (\<exists>s. generateSKU (JString (str ''A'')) = Some s \<and>
      s ! 0 \<in> set ''ABCDEFGH'' \<and> s ! 2 \<in> set ''ABCDEFGH'' \<and> s ! 5 \<in> set ''ABCDEFGH'' \<and>
      s ! 7 \<in> set ''ABCDEFGH'' \<and> s ! 10 \<in> set ''ABCDEFGH'' \<and> s ! 12 \<in> set ''ABCDEFGH'')"
proof -
  have ne: "trim (str ''A'') \<noteq> []" by (simp add: trim_str_A)
  from generateSKU_high_symbols [OF ne] obtain s where
    g: "generateSKU (JString (str ''A'')) = Some s"
    and p: "\<forall>k<6. s ! ([0, 2, 5, 7, 10, 12] ! k) \<in> set ''ABCDEFGH''"
    by blast
  have "s ! 0 \<in> set ''ABCDEFGH''" "s ! 2 \<in> set ''ABCDEFGH''" "s ! 5 \<in> set ''ABCDEFGH''"
    "s ! 7 \<in> set ''ABCDEFGH''" "s ! 10 \<in> set ''ABCDEFGH''" "s ! 12 \<in> set ''ABCDEFGH''"
    using p [rule_format, of 0] p [rule_format, of 1] p [rule_format, of 2]
      p [rule_format, of 3] p [rule_format, of 4] p [rule_format, of 5]
    by simp_all
  with ne g show ?thesis by blast
qed

end
